theory Spec2Isabelle
  imports Main "HOL-Library.Multiset"
begin

section \<open>JavaScript values as the formatter reads them\<close>

text \<open>
  The formatter works on the result of \<^verbatim>\<open>JSON.parse\<close>: null, booleans, numbers,
  strings, arrays and plain objects. \<open>JUndefined\<close> is what reading a missing property
  gives. Numbers are integers in this model (a JSON number with a fraction is outside
  it), strings are lists of code units below 256, and an object is the list of its own
  properties (a key is looked up from the left).
\<close>

datatype jsval =
    JUndefined
  | JNull
  | JBool bool
  | JNum int
  | JStr string
  | JArr "jsval list"
  | JObj "(string \<times> jsval) list"

text \<open>A thrown exception, with its \<^verbatim>\<open>message\<close>.\<close>

datatype exn = Exn string

definition bindE :: "exn + 'a \<Rightarrow> ('a \<Rightarrow> exn + 'b) \<Rightarrow> exn + 'b" where
  "bindE m f = (case m of Inl e \<Rightarrow> Inl e | Inr x \<Rightarrow> f x)"

text \<open>\<^verbatim>\<open>!v\<close> is \<open>\<not> truthy v\<close>.\<close>

fun truthy :: "jsval \<Rightarrow> bool" where
  "truthy JUndefined = False"
| "truthy JNull = False"
| "truthy (JBool b) = b"
| "truthy (JNum n) = (n \<noteq> 0)"
| "truthy (JStr s) = (s \<noteq> [])"
| "truthy (JArr xs) = True"
| "truthy (JObj kvs) = True"

text \<open>\<^verbatim>\<open>typeof v === 'object'\<close>: null, arrays and objects.\<close>

fun typeof_object :: "jsval \<Rightarrow> bool" where
  "typeof_object JNull = True"
| "typeof_object (JArr xs) = True"
| "typeof_object (JObj kvs) = True"
| "typeof_object v = False"

text \<open>\<^verbatim>\<open>typeof v === 'string'\<close>.\<close>

fun typeof_string :: "jsval \<Rightarrow> bool" where
  "typeof_string (JStr s) = True"
| "typeof_string v = False"

fun nullish :: "jsval \<Rightarrow> bool" where
  "nullish JUndefined = True"
| "nullish JNull = True"
| "nullish v = False"

subsection \<open>Numbers as decimal strings\<close>

definition digitChar :: "nat \<Rightarrow> char" where
  "digitChar d = ''0123456789'' ! d"

function showNat :: "nat \<Rightarrow> string" where
  "showNat n = (if n < 10 then [digitChar n] else showNat (n div 10) @ [digitChar (n mod 10)])"
  by pat_completeness auto
termination
  by (relation "measure id") auto

declare showNat.simps [simp del]

definition showInt :: "int \<Rightarrow> string" where
  "showInt i = (if i < 0 then CHR ''-'' # showNat (nat (- i)) else showNat (nat i))"

definition isDigit :: "char \<Rightarrow> bool" where
  "isDigit c = (c \<in> set ''0123456789'')"

definition digitVal :: "char \<Rightarrow> nat" where
  "digitVal c = of_char c - 48"

definition digitsVal :: "string \<Rightarrow> nat" where
  "digitsVal s = foldl (\<lambda>acc c. 10 * acc + digitVal c) 0 s"

text \<open>
  A property key is an array index when it is the canonical decimal string of a
  natural number: digits only, no leading zero but for \<^verbatim>\<open>"0"\<close> itself.
\<close>

definition arrayIndex :: "string \<Rightarrow> nat option" where
  "arrayIndex k =
     (if k \<noteq> [] \<and> list_all isDigit k \<and> (k = ''0'' \<or> hd k \<noteq> CHR ''0'')
      then Some (digitsVal k) else None)"

subsection \<open>Reading a property\<close>

text \<open>
  \<open>member v k\<close> is \<^verbatim>\<open>v[k]\<close> for a string key \<open>k\<close> and a value \<open>v\<close> that is
  neither null nor undefined: an own property of an object, an element or the length
  of an array, a code unit or the length of a string, and undefined otherwise.
  The inherited members of the built-in prototypes are not modelled; none of the
  keys the formatter spells out (\<^verbatim>\<open>root\<close>, \<^verbatim>\<open>children\<close>, \<^verbatim>\<open>message\<close>, \<^verbatim>\<open>fragments\<close>,
  \<^verbatim>\<open>type\<close>, \<^verbatim>\<open>content\<close>, \<^verbatim>\<open>title\<close>, \<^verbatim>\<open>id\<close>, \<^verbatim>\<open>mapping\<close>, \<^verbatim>\<open>inserted_at\<close>,
  \<^verbatim>\<open>updated_at\<close>) names one, and a node id that names one
  (\<^verbatim>\<open>"constructor"\<close>, say) reaches a built-in with neither \<^verbatim>\<open>message\<close> nor
  \<^verbatim>\<open>children\<close>, where the traversal appends nothing and stops, as it does in the
  model for a key with no entry.
\<close>

fun member :: "jsval \<Rightarrow> string \<Rightarrow> jsval" where
  "member (JObj kvs) k = (case map_of kvs k of Some v \<Rightarrow> v | None \<Rightarrow> JUndefined)"
| "member (JArr xs) k =
     (if k = ''length'' then JNum (int (length xs))
      else case arrayIndex k of
             Some i \<Rightarrow> (if i < length xs then xs ! i else JUndefined)
           | None \<Rightarrow> JUndefined)"
| "member (JStr s) k =
     (if k = ''length'' then JNum (int (length s))
      else case arrayIndex k of
             Some i \<Rightarrow> (if i < length s then JStr [s ! i] else JUndefined)
           | None \<Rightarrow> JUndefined)"
| "member v k = JUndefined"

text \<open>\<^verbatim>\<open>v.k\<close>: reading a property of null or undefined throws a TypeError.\<close>

definition js_get :: "jsval \<Rightarrow> string \<Rightarrow> exn + jsval" where
  "js_get v k =
     (if nullish v then Inl (Exn (''Cannot read properties of '' @
          (if v = JNull then ''null'' else ''undefined'') @ '' (reading '' @ [CHR 0x27] @ k @ [CHR 0x27] @ '')''))
      else Inr (member v k))"

text \<open>\<^verbatim>\<open>v?.k\<close>: undefined when \<open>v\<close> is null or undefined.\<close>

definition opt_member :: "jsval \<Rightarrow> string \<Rightarrow> jsval" where
  "opt_member v k = (if nullish v then JUndefined else member v k)"

subsection \<open>Conversion to string\<close>

text \<open>
  \<^verbatim>\<open>String(v)\<close>, which is also how a value becomes a property key. An array joins its
  elements with commas, null and undefined elements as the empty string. A plain
  object gives \<^verbatim>\<open>[object Object]\<close>; when it has an own property \<^verbatim>\<open>toString\<close> (a JSON
  value, so not callable) the conversion finds no usable method and throws a
  TypeError.
\<close>

definition cannotConvert :: exn where
  "cannotConvert = Exn ''Cannot convert object to primitive value''"

fun js_toString :: "jsval \<Rightarrow> exn + string"
  and js_join :: "jsval list \<Rightarrow> exn + string" where
  "js_toString JUndefined = Inr ''undefined''"
| "js_toString JNull = Inr ''null''"
| "js_toString (JBool b) = Inr (if b then ''true'' else ''false'')"
| "js_toString (JNum n) = Inr (showInt n)"
| "js_toString (JStr s) = Inr s"
| "js_toString (JArr xs) = js_join xs"
| "js_toString (JObj kvs) =
     (if ''toString'' \<in> fst ` set kvs then Inl cannotConvert else Inr ''[object Object]'')"
| "js_join [] = Inr []"
| "js_join (x # xs) =
     (case (if nullish x then Inr [] else js_toString x) of
        Inl e \<Rightarrow> Inl e
      | Inr s \<Rightarrow>
          (if xs = [] then Inr s
           else case js_join xs of Inl e \<Rightarrow> Inl e | Inr t \<Rightarrow> Inr (s @ '','' @ t)))"

text \<open>\<^verbatim>\<open>v[k]\<close> for a computed key \<open>k\<close> and \<open>v\<close> an array or object.\<close>

definition computed_member :: "jsval \<Rightarrow> jsval \<Rightarrow> exn + jsval" where
  "computed_member v k = bindE (js_toString k) (\<lambda>key. Inr (member v key))"

subsection \<open>Comparison with zero\<close>

definition isSpace :: "char \<Rightarrow> bool" where
  "isSpace c = (of_char c \<in> {9, 10, 11, 12, 13, 32, 160 :: nat})"

definition js_trim :: "string \<Rightarrow> string" where
  "js_trim s = rev (dropWhile isSpace (rev (dropWhile isSpace s)))"

text \<open>
  \<^verbatim>\<open>Number(s) > 0\<close> for a string: as numbers are integers in this model, the string
  is read as a decimal integer literal (digits with an optional sign, white space
  around it); any other string counts as NaN.
\<close>

definition strPositive :: "string \<Rightarrow> bool" where
  "strPositive s =
     (let t = js_trim s;
          d = (if t \<noteq> [] \<and> hd t = CHR ''+'' then tl t else t)
      in d \<noteq> [] \<and> list_all isDigit d \<and> (\<exists>c \<in> set d. c \<noteq> CHR ''0''))"

text \<open>
  \<^verbatim>\<open>v > 0\<close>: the value is converted to a number first; undefined is NaN, null is 0; an
  array goes through its string, an object through \<^verbatim>\<open>[object Object]\<close> (NaN).
\<close>

fun js_gt0 :: "jsval \<Rightarrow> exn + bool" where
  "js_gt0 JUndefined = Inr False"
| "js_gt0 JNull = Inr False"
| "js_gt0 (JBool b) = Inr b"
| "js_gt0 (JNum n) = Inr (0 < n)"
| "js_gt0 (JStr s) = Inr (strPositive s)"
| "js_gt0 (JArr xs) = bindE (js_join xs) (\<lambda>s. Inr (strPositive s))"
| "js_gt0 (JObj kvs) =
     (if ''toString'' \<in> fst ` set kvs then Inl cannotConvert else Inr False)"

section \<open>extractMessages\<close>

text \<open>\<^verbatim>\<open>mapping.root?.children?.[0]\<close>, for a mapping that is an array or an object.\<close>

definition rootFirstChild :: "jsval \<Rightarrow> jsval" where
  "rootFirstChild mapping = opt_member (opt_member (member mapping ''root'') ''children'') ''0''"

text \<open>
  \<^verbatim>\<open>node && node.children && node.children.length > 0 ? node.children[0] : null\<close>,
  for a truthy node.
\<close>

definition nextId :: "jsval \<Rightarrow> exn + jsval" where
  "nextId node =
     (let children = member node ''children'' in
      if truthy children then
        bindE (js_gt0 (member children ''length''))
          (\<lambda>b. Inr (if b then member children ''0'' else JNull))
      else Inr JNull)"

text \<open>\<^verbatim>\<open>if (node && node.message) messages.push(node.message)\<close>, for a truthy node.\<close>

definition pushMessage :: "jsval \<Rightarrow> jsval list \<Rightarrow> jsval list" where
  "pushMessage node messages =
     (if truthy (member node ''message'') then messages @ [member node ''message''] else messages)"

text \<open>
  The \<^verbatim>\<open>while\<close> loop inside the \<^verbatim>\<open>try\<close>. The result \<open>None\<close> is a loop that never
  ends. An exception leaves the loop for the \<^verbatim>\<open>catch\<close>, which logs it; the messages
  pushed so far are returned.
\<close>

partial_function (option) extractLoop :: "jsval \<Rightarrow> jsval \<Rightarrow> jsval list \<Rightarrow> jsval list option" where
  "extractLoop mapping currentId messages =
     (if \<not> truthy currentId then Some messages
      else case computed_member mapping currentId of
             Inl e \<Rightarrow> Some messages
           | Inr node \<Rightarrow>
               (if \<not> truthy node then Some messages
                else (case nextId node of
                        Inl e \<Rightarrow> Some (pushMessage node messages)
                      | Inr next \<Rightarrow> extractLoop mapping next (pushMessage node messages))))"

declare extractLoop.simps [code]

definition extractMessages :: "jsval \<Rightarrow> jsval list option" where
  "extractMessages mapping =
     (if \<not> truthy mapping \<or> \<not> typeof_object mapping then Some []
      else extractLoop mapping (rootFirstChild mapping) [])"


subsection \<open>The traversal, step by step\<close>

text \<open>
  The loop condition \<^verbatim>\<open>currentId && mapping[currentId]\<close>: the node the loop body
  works on, or \<open>None\<close> when the loop ends (a falsy id, an id whose conversion to a
  key throws, or no truthy entry under the key).
\<close>

definition resolve :: "jsval \<Rightarrow> jsval \<Rightarrow> jsval option" where
  "resolve mapping currentId =
     (if truthy currentId then
        (case computed_member mapping currentId of
           Inl e \<Rightarrow> None
         | Inr node \<Rightarrow> if truthy node then Some node else None)
      else None)"

text \<open>
  The nodes the loop body visits in its first \<open>n\<close> rounds, in visit order: the chain of
  first children from \<open>currentId\<close>. The chain has ended within \<open>n\<close> rounds when the
  list is shorter than \<open>n\<close>.
\<close>

fun visited :: "jsval \<Rightarrow> jsval \<Rightarrow> nat \<Rightarrow> jsval list" where
  "visited mapping currentId 0 = []"
| "visited mapping currentId (Suc n) =
     (case resolve mapping currentId of
        None \<Rightarrow> []
      | Some node \<Rightarrow>
          node # (case nextId node of Inl e \<Rightarrow> [] | Inr next \<Rightarrow> visited mapping next n))"

text \<open>The keys under which those nodes were found.\<close>

fun visitedKeys :: "jsval \<Rightarrow> jsval \<Rightarrow> nat \<Rightarrow> string list" where
  "visitedKeys mapping currentId 0 = []"
| "visitedKeys mapping currentId (Suc n) =
     (case resolve mapping currentId of
        None \<Rightarrow> []
      | Some node \<Rightarrow>
          (case js_toString currentId of
             Inl e \<Rightarrow> []
           | Inr k \<Rightarrow> k # (case nextId node of Inl e \<Rightarrow> [] | Inr nxt \<Rightarrow> visitedKeys mapping nxt n)))"

text \<open>The messages of a list of nodes, those present (truthy) only.\<close>

definition nodeMessages :: "jsval list \<Rightarrow> jsval list" where
  "nodeMessages nodes =
     concat (map (\<lambda>node. if truthy (member node ''message'') then [member node ''message''] else []) nodes)"

text \<open>The number of entries of a mapping object.\<close>

fun entryCount :: "jsval \<Rightarrow> nat" where
  "entryCount (JObj kvs) = length (remdups (map fst kvs))"
| "entryCount v = 0"

text \<open>The first-child chain never comes back to a key it has visited.\<close>

definition acyclicChain :: "jsval \<Rightarrow> bool" where
  "acyclicChain mapping = (\<forall>n. distinct (visitedKeys mapping (rootFirstChild mapping) n))"

text \<open>
  The mapping \<^verbatim>\<open>{root: {children: [a]}, a: {message: M1, children: [b]},
  b: {message: M2, children: []}}\<close>.
\<close>

definition exampleMapping :: "string \<Rightarrow> string \<Rightarrow> jsval \<Rightarrow> jsval \<Rightarrow> jsval" where
  "exampleMapping a b M1 M2 =
     JObj [(''root'', JObj [(''children'', JArr [JStr a])]),
           (a, JObj [(''message'', M1), (''children'', JArr [JStr b])]),
           (b, JObj [(''message'', M2), (''children'', JArr [])])]"

text \<open>A mapping whose node \<^verbatim>\<open>A\<close> is its own first child.\<close>

definition cyclicMapping :: jsval where
  "cyclicMapping =
     JObj [(''root'', JObj [(''children'', JArr [JStr ''A''])]),
           (''A'', JObj [(''message'', JStr ''m''), (''children'', JArr [JStr ''A''])])]"


section \<open>The environment of the formatter\<close>

text \<open>
  What the formatter takes from its libraries, its options and the system.
  \<open>getTime E v\<close> is \<^verbatim>\<open>new Date(v).getTime()\<close>, with \<open>None\<close> for NaN (an invalid date)
  and for a constructor that throws: every caller treats the two alike.
  \<open>formatDate\<close> and \<open>formatDateTime\<close> are \<^verbatim>\<open>format(date, 'yyyy-MM-dd')\<close> and
  \<^verbatim>\<open>format(date, 'yyyy-MM-dd HH:mm:ss')\<close> of date-fns on a valid date, \<open>today\<close> is
  \<^verbatim>\<open>new Date().toLocaleDateString()\<close>, \<open>css\<close> is the style sheet \<^verbatim>\<open>getCSS()\<close> returns (a
  constant of the source, kept as a parameter), \<open>verbose\<close> and \<open>outputDir\<close> are the
  options of the formatter, \<open>pathJoin\<close> is \<^verbatim>\<open>path.join\<close>, and \<open>writeFails p\<close> says that
  \<^verbatim>\<open>fs.writeFile\<close> to the path \<open>p\<close> throws.
\<close>

record env =
  getTime :: "jsval \<Rightarrow> int option"
  formatDate :: "int \<Rightarrow> string"
  formatDateTime :: "int \<Rightarrow> string"
  today :: string
  css :: string
  verbose :: bool
  outputDir :: string
  pathJoin :: "string \<Rightarrow> string \<Rightarrow> string"
  writeFails :: "string \<Rightarrow> bool"

text \<open>The running statistics \<^verbatim>\<open>this.stats\<close>.\<close>

record stats =
  totalConversations :: nat
  totalMessages :: nat
  processedFiles :: nat
  errors :: nat

section \<open>sanitizeFilename and the file names\<close>

text \<open>The characters of the class \<^verbatim>\<open>[<>:"/\\|?*]\<close>.\<close>

definition specialChars :: "char list" where
  "specialChars = [CHR ''<'', CHR ''>'', CHR '':'', CHR 0x22, CHR ''/'', CHR 0x5C, CHR ''|'', CHR ''?'', CHR ''*'']"

text \<open>\<^verbatim>\<open>.replace(/[<>:"/\\|?*]/g, '_')\<close>.\<close>

definition replaceSpecial :: "string \<Rightarrow> string" where
  "replaceSpecial s = map (\<lambda>c. if c \<in> set specialChars then CHR ''_'' else c) s"

text \<open>
  \<^verbatim>\<open>.replace(/\s+/g, '_')\<close>: at a white space character the whole run of white space
  that starts there becomes one underscore.
\<close>

function collapseSpace :: "string \<Rightarrow> string" where
  "collapseSpace [] = []"
| "collapseSpace (c # cs) =
     (if isSpace c then CHR ''_'' # collapseSpace (dropWhile isSpace cs)
      else c # collapseSpace cs)"
  by pat_completeness auto
termination
  by (relation "measure length") (auto simp: less_Suc_eq_le length_dropWhile_le)

text \<open>\<^verbatim>\<open>substring(0, 50)\<close> is \<open>take 50\<close>, and \<^verbatim>\<open>trim()\<close> is \<open>js_trim\<close>.\<close>

definition sanitizeFilename :: "jsval \<Rightarrow> string" where
  "sanitizeFilename filename =
     (if \<not> truthy filename \<or> \<not> typeof_string filename then ''untitled''
      else case filename of
             JStr s \<Rightarrow> js_trim (take 50 (collapseSpace (replaceSpecial s)))
           | _ \<Rightarrow> ''untitled'')"

text \<open>\<^verbatim>\<open>s.padStart(3, '0')\<close>.\<close>

definition padStart3 :: "string \<Rightarrow> string" where
  "padStart3 s = replicate (3 - length s) CHR ''0'' @ s"

definition getDatePrefix :: "env \<Rightarrow> jsval \<Rightarrow> string" where
  "getDatePrefix E conversation =
     (case js_get conversation ''updated_at'' of
        Inl e \<Rightarrow> ''nodate''
      | Inr updated \<Rightarrow>
          (let dateStr = (if truthy updated then updated else member conversation ''inserted_at'') in
           if \<not> truthy dateStr then ''nodate''
           else case getTime E dateStr of
                  None \<Rightarrow> ''nodate''
                | Some t \<Rightarrow> formatDate E t))"

text \<open>\<^verbatim>\<open>(index + 1).toString().padStart(3, '0')\<close>.\<close>

definition fileNumberOf :: "nat \<Rightarrow> string" where
  "fileNumberOf index = padStart3 (showNat (index + 1))"

text \<open>
  The file name under which \<open>processConversation\<close> writes a conversation (lines 101 to
  107). Reading \<^verbatim>\<open>conversation.title\<close> throws when the conversation is null.
\<close>

definition processFileName :: "env \<Rightarrow> jsval \<Rightarrow> nat \<Rightarrow> exn + string" where
  "processFileName E conversation index =
     (let fileNumber = fileNumberOf index;
          datePrefix = getDatePrefix E conversation
      in bindE (js_get conversation ''title'') (\<lambda>title.
           let safeTitle = sanitizeFilename
                 (if truthy title then title else JStr (''conversation-'' @ fileNumber))
           in Inr (datePrefix @ ''-'' @ fileNumber @ ''-'' @ safeTitle @ ''.html'')))"

text \<open>The \<^verbatim>\<open>file\<close> field of a conversation's entry in summary.json (line 454).\<close>

definition summaryFile :: "env \<Rightarrow> jsval \<Rightarrow> nat \<Rightarrow> exn + string" where
  "summaryFile E conv i =
     (let datePrefix = getDatePrefix E conv;
          number = padStart3 (showNat (i + 1))
      in bindE (js_get conv ''title'') (\<lambda>title.
           Inr (datePrefix @ ''-'' @ number @ ''-'' @
                sanitizeFilename (if truthy title then title else JStr (''conversation-'' @ showNat (i + 1)))
                @ ''.html'')))"

text \<open>The link target of a conversation's row in index.html (line 516).\<close>

definition indexFileName :: "env \<Rightarrow> jsval \<Rightarrow> nat \<Rightarrow> exn + string" where
  "indexFileName E conv i =
     (let datePrefix = getDatePrefix E conv;
          number = padStart3 (showNat (i + 1))
      in bindE (js_get conv ''title'') (\<lambda>title.
           Inr (datePrefix @ ''-'' @ number @ ''-'' @
                sanitizeFilename (if truthy title then title else JStr (''conversation-'' @ showNat (i + 1)))
                @ ''.html'')))"

section \<open>escapeHtml and formatContent\<close>

definition escapeChar :: "char \<Rightarrow> string" where
  \<open>escapeChar c =
     (if c = CHR ''&'' then ''&amp;''
      else if c = CHR ''<'' then ''&lt;''
      else if c = CHR ''>'' then ''&gt;''
      else if c = CHR 0x22 then ''&quot;''
      else if c = CHR 0x27 then ''&#039;''
      else [c])\<close>

definition escapeHtml :: "jsval \<Rightarrow> string" where
  "escapeHtml text =
     (if \<not> truthy text \<or> \<not> typeof_string text then []
      else case text of JStr s \<Rightarrow> concat (map escapeChar s) | _ \<Rightarrow> [])"

subsection \<open>Replacing all matches of a regular expression\<close>

text \<open>
  The passes of \<open>formatContent\<close> are written once, over lists of any kind of
  element that carries a character: \<open>ch\<close> reads the character of an element, \<open>mk\<close>
  makes the element for a character of a replacement text, and \<open>derive x c\<close> is the
  element for a character \<open>c\<close> computed from the element \<open>x\<close>. On strings
  (\<open>plain\<close>) all three do nothing. On characters paired with a mark (\<open>marked\<close>) the
  same passes keep, for every character of the result, whether it came from the
  text that was passed in (\<open>False\<close>) or from a replacement text of the formatter
  (\<open>True\<close>).
\<close>

record 'a carrier =
  ch :: "'a \<Rightarrow> char"
  mk :: "char \<Rightarrow> 'a"
  derive :: "'a \<Rightarrow> char \<Rightarrow> 'a"

definition plain :: "char carrier" where
  "plain = \<lparr>ch = (\<lambda>c. c), mk = (\<lambda>c. c), derive = (\<lambda>x c. c)\<rparr>"

definition marked :: "(char \<times> bool) carrier" where
  "marked = \<lparr>ch = fst, mk = (\<lambda>c. (c, True)), derive = (\<lambda>x c. (c, snd x))\<rparr>"

text \<open>
  A replacement: literal text, a captured group (\<^verbatim>\<open>$1\<close>, \<^verbatim>\<open>$2\<close>), the whole match
  (\<^verbatim>\<open>$&\<close>), or \<^verbatim>\<open>escapeHtml(group.trim())\<close> as the replacer function of the code-block
  pass computes it. A match is its length and its groups, each group an offset into
  the match and a length.
\<close>

datatype piece = Lit string | Grp nat | Whole | EscTrim nat

type_synonym rmatch = "nat \<times> (nat \<times> nat) list"

definition sub :: "'a list \<Rightarrow> nat \<times> nat \<Rightarrow> 'a list" where
  "sub xs r = take (snd r) (drop (fst r) xs)"

definition trimG :: "'a carrier \<Rightarrow> 'a list \<Rightarrow> 'a list" where
  "trimG C xs = rev (dropWhile (\<lambda>x. isSpace (ch C x)) (rev (dropWhile (\<lambda>x. isSpace (ch C x)) xs)))"

definition escapeG :: "'a carrier \<Rightarrow> 'a list \<Rightarrow> 'a list" where
  "escapeG C xs = concat (map (\<lambda>x. map (derive C x) (escapeChar (ch C x))) xs)"

fun instPiece :: "'a carrier \<Rightarrow> 'a list \<Rightarrow> (nat \<times> nat) list \<Rightarrow> piece \<Rightarrow> 'a list" where
  "instPiece C m gs (Lit s) = map (mk C) s"
| "instPiece C m gs (Grp k) = sub m (gs ! (k - 1))"
| "instPiece C m gs Whole = m"
| "instPiece C m gs (EscTrim k) = escapeG C (trimG C (sub m (gs ! (k - 1))))"

text \<open>The line terminators (below 256) that \<^verbatim>\<open>.\<close>, \<^verbatim>\<open>^\<close> and \<^verbatim>\<open>$\<close> respect.\<close>

definition isLineTerm :: "char \<Rightarrow> bool" where
  "isLineTerm c = (c = CHR 0x0A \<or> c = CHR 0x0D)"

text \<open>
  \<^verbatim>\<open>s.replace(re, replacement)\<close> for a regular expression with the \<^verbatim>\<open>g\<close> flag. \<open>re bol s\<close>
  says whether the expression matches at the start of \<open>s\<close>, where \<open>bol\<close> tells that
  this position is the start of the text or follows a line terminator (what \<^verbatim>\<open>^\<close>
  asks for under the \<^verbatim>\<open>m\<close> flag). The search goes from left to right; after a match
  it goes on behind the match, and where nothing matches the character is kept.
\<close>

fun replaceAll ::
  "'a carrier \<Rightarrow> (bool \<Rightarrow> string \<Rightarrow> rmatch option) \<Rightarrow> piece list \<Rightarrow> bool \<Rightarrow> 'a list \<Rightarrow> 'a list" where
  "replaceAll C re tpl bol [] = []"
| "replaceAll C re tpl bol (x # xs) =
     (case re bol (map (ch C) (x # xs)) of
        None \<Rightarrow> x # replaceAll C re tpl (isLineTerm (ch C x)) xs
      | Some (len, gs) \<Rightarrow>
          (if len = 0 then
             concat (map (instPiece C [] gs) tpl) @ x # replaceAll C re tpl (isLineTerm (ch C x)) xs
           else
             concat (map (instPiece C (take len (x # xs)) gs) tpl) @
             replaceAll C re tpl (isLineTerm (ch C (last (take len (x # xs))))) (drop (len - 1) xs)))"

subsection \<open>The regular expressions of formatContent\<close>

definition startsWith :: "string \<Rightarrow> string \<Rightarrow> bool" where
  "startsWith p s = (take (length p) s = p)"

text \<open>The first and the last position at which \<open>p\<close> occurs in a string.\<close>

fun findSub :: "string \<Rightarrow> string \<Rightarrow> nat option" where
  "findSub p [] = (if p = [] then Some 0 else None)"
| "findSub p (c # cs) =
     (if startsWith p (c # cs) then Some 0
      else case findSub p cs of None \<Rightarrow> None | Some n \<Rightarrow> Some (Suc n))"

fun findLastSub :: "string \<Rightarrow> string \<Rightarrow> nat option" where
  "findLastSub p [] = (if p = [] then Some 0 else None)"
| "findLastSub p (c # cs) =
     (case findLastSub p cs of
        Some n \<Rightarrow> Some (Suc n)
      | None \<Rightarrow> if startsWith p (c # cs) then Some 0 else None)"

text \<open>The class \<^verbatim>\<open>\w\<close>.\<close>

definition isWordChar :: "char \<Rightarrow> bool" where
  "isWordChar c =
     (c \<in> set ''abcdefghijklmnopqrstuvwxyzABCDEFGHIJKLMNOPQRSTUVWXYZ0123456789_'')"

text \<open>
  \<^verbatim>\<open>/```(\w+)?\n([\s\S]*?)```/\<close>: three backquotes, the longest run of word
  characters (a shorter run would have to be followed by a word character where the
  expression wants the newline), a newline, and the text up to the first three
  backquotes that follow (the group is lazy).
\<close>

definition reFence :: "bool \<Rightarrow> string \<Rightarrow> rmatch option" where
  "reFence bol s =
     (if startsWith ''```'' s then
        (let w = length (takeWhile isWordChar (drop 3 s)) in
         case drop (3 + w) s of
           [] \<Rightarrow> None
         | c # rest \<Rightarrow>
             if c = CHR 0x0A then
               (case findSub ''```'' rest of
                  None \<Rightarrow> None
                | Some n \<Rightarrow> Some (3 + w + 1 + n + 3, [(3, w), (3 + w + 1, n)]))
             else None)
      else None)"

text \<open>
  \<^verbatim>\<open>/`([^`]+)`/\<close>: a backquote, the longest non-empty run without a backquote, a
  backquote. The run is followed by a backquote or by the end of the text, so no
  shorter run can match.
\<close>

definition reInlineCode :: "bool \<Rightarrow> string \<Rightarrow> rmatch option" where
  "reInlineCode bol s =
     (if startsWith ''`'' s then
        (let n = length (takeWhile (\<lambda>c. c \<noteq> CHR ''`'') (drop 1 s)) in
         if 0 < n \<and> startsWith ''`'' (drop (1 + n) s) then Some (n + 2, [(1, n)]) else None)
      else None)"

text \<open>
  \<^verbatim>\<open>/^### (.+)$/m\<close> and its like (\<^verbatim>\<open>## \<close>, \<^verbatim>\<open># \<close>, \<^verbatim>\<open>- \<close>): the prefix at the start of
  a line and the rest of the line, which must not be empty.
\<close>

definition reLine :: "string \<Rightarrow> bool \<Rightarrow> string \<Rightarrow> rmatch option" where
  "reLine prefix bol s =
     (if bol \<and> startsWith prefix s then
        (let n = length (takeWhile (\<lambda>c. \<not> isLineTerm c) (drop (length prefix) s)) in
         if 0 < n then Some (length prefix + n, [(length prefix, n)]) else None)
      else None)"

text \<open>
  \<^verbatim>\<open>/\*\*([^*]+)\*\*/\<close> and \<^verbatim>\<open>/\*([^*]+)\*/\<close>: the delimiter, the longest non-empty run
  without an asterisk, the delimiter.
\<close>

definition reDelimited :: "string \<Rightarrow> bool \<Rightarrow> string \<Rightarrow> rmatch option" where
  "reDelimited d bol s =
     (if startsWith d s then
        (let n = length (takeWhile (\<lambda>c. c \<noteq> CHR ''*'') (drop (length d) s)) in
         if 0 < n \<and> startsWith d (drop (length d + n) s)
         then Some (n + 2 * length d, [(length d, n)]) else None)
      else None)"

text \<open>
  One round of \<^verbatim>\<open>(<li>.*<\/li>\n?)\<close>: \<^verbatim>\<open><li>\<close>, then as much of the line as still leaves
  a \<^verbatim>\<open></li>\<close> on it (the last one on the line), then a newline when one follows.
  \<open>liItems\<close> is the length of as many rounds as match one after the other.
\<close>

definition liItem :: "string \<Rightarrow> nat option" where
  "liItem s =
     (if startsWith ''<li>'' s then
        (case findLastSub ''</li>'' (takeWhile (\<lambda>c. \<not> isLineTerm c) (drop 4 s)) of
           None \<Rightarrow> None
         | Some k \<Rightarrow> Some (4 + k + 5 + (if startsWith [CHR 0x0A] (drop (4 + k + 5) s) then 1 else 0)))
      else None)"

function liItems :: "string \<Rightarrow> nat" where
  "liItems s =
     (case liItem s of
        None \<Rightarrow> 0
      | Some n \<Rightarrow> if s = [] then 0 else n + liItems (drop (max 1 n) s))"
  by pat_completeness auto
termination
  by (relation "measure length") auto

declare liItems.simps [simp del]

definition reListItems :: "bool \<Rightarrow> string \<Rightarrow> rmatch option" where
  "reListItems bol s = (if liItems s = 0 then None else Some (liItems s, []))"

text \<open>\<^verbatim>\<open>/\[([^\]]+)\]\(([^)]+)\)/\<close>.\<close>

definition reLink :: "bool \<Rightarrow> string \<Rightarrow> rmatch option" where
  "reLink bol s =
     (if startsWith ''['' s then
        (let n = length (takeWhile (\<lambda>c. c \<noteq> CHR '']'') (drop 1 s)) in
         if 0 < n \<and> startsWith '']('' (drop (1 + n) s) then
           (let m = length (takeWhile (\<lambda>c. c \<noteq> CHR '')'') (drop (1 + n + 2) s)) in
            if 0 < m \<and> startsWith '')'' (drop (1 + n + 2 + m) s)
            then Some (1 + n + 2 + m + 1, [(1, n), (1 + n + 2, m)]) else None)
         else None)
      else None)"

definition reNewline :: "bool \<Rightarrow> string \<Rightarrow> rmatch option" where
  "reNewline bol s = (if startsWith [CHR 0x0A] s then Some (1, []) else None)"

text \<open>The ten replacements of \<open>formatContent\<close>, in the order of the source.\<close>

definition formatPasses :: "'a carrier \<Rightarrow> 'a list \<Rightarrow> 'a list" where
  \<open>formatPasses C escaped =
     (let f1 = replaceAll C reFence [Lit ''<pre><code>'', EscTrim 2, Lit ''</code></pre>''] True escaped;
          f2 = replaceAll C reInlineCode [Lit ''<code>'', Grp 1, Lit ''</code>''] True f1;
          f3 = replaceAll C (reLine ''### '') [Lit ''<h4>'', Grp 1, Lit ''</h4>''] True f2;
          f4 = replaceAll C (reLine ''## '') [Lit ''<h3>'', Grp 1, Lit ''</h3>''] True f3;
          f5 = replaceAll C (reLine ''# '') [Lit ''<h2>'', Grp 1, Lit ''</h2>''] True f4;
          f6 = replaceAll C (reDelimited ''**'') [Lit ''<strong>'', Grp 1, Lit ''</strong>''] True f5;
          f7 = replaceAll C (reDelimited ''*'') [Lit ''<em>'', Grp 1, Lit ''</em>''] True f6;
          f8 = replaceAll C (reLine ''- '') [Lit ''<li>'', Grp 1, Lit ''</li>''] True f7;
          f9 = replaceAll C reListItems [Lit ''<ul>'', Whole, Lit ''</ul>''] True f8;
          f10 = replaceAll C reLink
                  [Lit ''<a href="'', Grp 2, Lit ''" target="_blank">'', Grp 1, Lit ''</a>''] True f9
      in replaceAll C reNewline [Lit ''<br>''] True f10)\<close>

text \<open>
  Nothing in the \<^verbatim>\<open>try\<close> of \<open>formatContent\<close> throws (the replacements work on a
  string), so its \<^verbatim>\<open>catch\<close> is never entered.
\<close>

definition formatContent :: "jsval \<Rightarrow> string" where
  "formatContent content =
     (if \<not> truthy content \<or> \<not> typeof_string content then []
      else formatPasses plain (escapeHtml content))"

section \<open>generateHTML\<close>

text \<open>
  \<^verbatim>\<open>safeString(value)\<close>; \<^verbatim>\<open>String(value)\<close> can throw. \<open>safeStringOr v d\<close> is
  \<^verbatim>\<open>safeString(v) || d\<close>.
\<close>

definition safeString :: "jsval \<Rightarrow> exn + string" where
  "safeString v = (if v = JNull \<or> v = JUndefined \<or> v = JStr [] then Inr [] else js_toString v)"

definition safeStringOr :: "jsval \<Rightarrow> string \<Rightarrow> exn + string" where
  "safeStringOr v fallback = bindE (safeString v) (\<lambda>s. Inr (if s = [] then fallback else s))"

definition formatTimestamp :: "env \<Rightarrow> jsval \<Rightarrow> jsval" where
  "formatTimestamp E timestamp =
     (if \<not> truthy timestamp then JStr ''unknown''
      else case getTime E timestamp of
             None \<Rightarrow> timestamp
           | Some t \<Rightarrow> JStr (formatDateTime E t))"

text \<open>
  One visual block of the page. \<^verbatim>\<open>htmlContent\<close> grows by the text of one block per
  emitted fragment; the model keeps the blocks as a list and joins their texts when
  the page is put together.
\<close>

record block =
  isRequest :: bool
  headerText :: string
  timeText :: string
  contentHtml :: string

definition blockHtml :: "block \<Rightarrow> string" where
  \<open>blockHtml b =
     ''\<newline>        <div class="chat-message '' @ (if isRequest b then ''request'' else ''response'') @ ''">\<newline>'' @
     ''            <div class="message-header">\<newline>'' @
     ''                <h2>'' @ headerText b @ ''</h2>\<newline>'' @
     ''                <span class="message-time">'' @ timeText b @ ''</span>\<newline>'' @
     ''            </div>\<newline>'' @
     ''            <div class="message-content">'' @ contentHtml b @ ''</div>\<newline>'' @
     ''        </div>''\<close>

text \<open>The bullet of the footer (U+2022), as the bytes of the file that is written.\<close>

definition bullet :: string where
  "bullet = [CHR 0xE2, CHR 0x80, CHR 0xA2]"

definition pageHead :: "env \<Rightarrow> string \<Rightarrow> string \<Rightarrow> string \<Rightarrow> string \<Rightarrow> string \<Rightarrow> string" where
  \<open>pageHead E title fileNumber ident createdFormatted updatedFormatted =
     ''<!DOCTYPE html>\<newline>'' @
     ''<html lang="en">\<newline>'' @
     ''<head>\<newline>'' @
     ''    <meta charset="UTF-8">\<newline>'' @
     ''    <meta name="viewport" content="width=device-width, initial-scale=1.0">\<newline>'' @
     ''    <title>DeepSeek Chat: '' @ escapeHtml (JStr title) @ ''</title>\<newline>'' @
     ''    <style>\<newline>'' @
     ''        '' @ css E @ ''\<newline>'' @
     ''    </style>\<newline>'' @
     ''</head>\<newline>'' @
     ''<body>\<newline>'' @
     ''    <div class="container">\<newline>'' @
     ''        <div class="header">\<newline>'' @
     ''            <div class="conversation-meta">\<newline>'' @
     ''                <span class="conversation-number">Conversation #'' @ fileNumber @ ''</span>\<newline>'' @
     ''                <span class="conversation-date">'' @ updatedFormatted @ ''</span>\<newline>'' @
     ''            </div>\<newline>'' @
     ''            <h1 class="title">'' @ escapeHtml (JStr title) @ ''</h1>\<newline>'' @
     ''            <div class="meta">\<newline>'' @
     ''                ID: '' @ ident @ ''<br>\<newline>'' @
     ''                Created: '' @ createdFormatted @ ''<br>\<newline>'' @
     ''                Updated: '' @ updatedFormatted @ ''\<newline>'' @
     ''            </div>\<newline>'' @
     ''        </div>''\<close>

definition pageFoot :: "env \<Rightarrow> nat \<Rightarrow> string \<Rightarrow> string" where
  \<open>pageFoot E messageCount createdFormatted =
     ''\<newline>        <div class="footer">\<newline>'' @
     ''            <div class="footer-stats">\<newline>'' @
     ''                Generated by DeepSeek Formatter '' @ bullet @ '' '' @ today E @ ''<br>\<newline>'' @
     ''                Total messages: '' @ showNat messageCount @ '' '' @ bullet @
       '' Conversation date: '' @ createdFormatted @ ''\<newline>'' @
     ''            </div>\<newline>'' @
     ''            <div class="navigation">\<newline>'' @
     ''                <span class="nav-info">Sorted by date (newest first)</span>\<newline>'' @
     ''            </div>\<newline>'' @
     ''        </div>\<newline>'' @
     ''    </div>\<newline>'' @
     ''</body>\<newline>'' @
     ''</html>''\<close>

text \<open>The page that the \<^verbatim>\<open>catch\<close> of \<open>generateHTML\<close> returns.\<close>

definition errorPage :: "exn \<Rightarrow> string" where
  "errorPage e =
     (case e of Exn message \<Rightarrow>
        ''<html><body><h1>Error processing conversation</h1><p>'' @ message @ ''</p></body></html>'')"

text \<open>
  The body of the inner loop (lines 189 to 208) for one fragment: the state is
  \<^verbatim>\<open>messageNumber\<close> and the blocks emitted so far.
\<close>

definition renderFragment :: "env \<Rightarrow> jsval \<Rightarrow> nat \<times> block list \<Rightarrow> jsval \<Rightarrow> exn + nat \<times> block list" where
  "renderFragment E message st fragment =
     (case st of (messageNumber, blocks) \<Rightarrow>
        if truthy fragment \<and> truthy (member fragment ''type'') \<and> truthy (member fragment ''content'') then
          (let isReq = (member fragment ''type'' = JStr ''REQUEST'');
               header = (if isReq then ''Request '' @ showNat messageNumber
                         else ''Response '' @ showNat messageNumber)
           in bindE (safeStringOr (member message ''inserted_at'') ''unknown'') (\<lambda>time.
              bindE (safeStringOr (member fragment ''content'') []) (\<lambda>content.
              bindE (js_toString (formatTimestamp E (JStr time))) (\<lambda>timeShown.
                Inr (if isReq then messageNumber + 1 else messageNumber,
                     blocks @ [\<lparr>isRequest = isReq, headerText = header, timeText = timeShown,
                                contentHtml = formatContent (JStr content)\<rparr>])))))
        else Inr (messageNumber, blocks))"

fun renderFragments :: "env \<Rightarrow> jsval \<Rightarrow> nat \<times> block list \<Rightarrow> jsval list \<Rightarrow> exn + nat \<times> block list" where
  "renderFragments E message st [] = Inr st"
| "renderFragments E message st (fragment # rest) =
     bindE (renderFragment E message st fragment) (\<lambda>st'. renderFragments E message st' rest)"

definition renderMessage :: "env \<Rightarrow> nat \<times> block list \<Rightarrow> jsval \<Rightarrow> exn + nat \<times> block list" where
  "renderMessage E st message =
     (if truthy message \<and> truthy (member message ''fragments'') then
        (case member message ''fragments'' of
           JArr fragments \<Rightarrow> renderFragments E message st fragments
         | _ \<Rightarrow> Inr st)
      else Inr st)"

fun renderMessages :: "env \<Rightarrow> nat \<times> block list \<Rightarrow> jsval list \<Rightarrow> exn + nat \<times> block list" where
  "renderMessages E st [] = Inr st"
| "renderMessages E st (message # rest) =
     bindE (renderMessage E st message) (\<lambda>st'. renderMessages E st' rest)"

text \<open>The \<^verbatim>\<open>try\<close> body of \<open>generateHTML\<close> after the messages have been extracted.\<close>

definition renderPage :: "env \<Rightarrow> jsval \<Rightarrow> string \<Rightarrow> jsval list \<Rightarrow> exn + string" where
  "renderPage E conversation fileNumber messages =
     bindE (safeStringOr (member conversation ''title'') (''Conversation '' @ fileNumber)) (\<lambda>title.
     bindE (safeStringOr (member conversation ''id'') ''unknown-id'') (\<lambda>ident.
     bindE (safeStringOr (member conversation ''inserted_at'') ''unknown'') (\<lambda>created.
     bindE (safeStringOr (member conversation ''updated_at'') ''unknown'') (\<lambda>updated.
     bindE (js_toString (formatTimestamp E (JStr created))) (\<lambda>createdFormatted.
     bindE (js_toString (formatTimestamp E (JStr updated))) (\<lambda>updatedFormatted.
     bindE (renderMessages E (1, []) messages) (\<lambda>st.
       Inr (pageHead E title fileNumber ident createdFormatted updatedFormatted @
            concat (map blockHtml (snd st)) @
            pageFoot E (length messages) createdFormatted))))))))"

text \<open>
  \<open>generateHTML\<close> returns the page, or the error page when anything in its \<^verbatim>\<open>try\<close>
  throws; \<open>None\<close> is a traversal of the mapping that never ends. The count of
  messages is added to the statistics before the page is rendered.
\<close>

definition generateHTML :: "env \<Rightarrow> stats \<Rightarrow> jsval \<Rightarrow> string \<Rightarrow> (stats \<times> string) option" where
  "generateHTML E st conversation fileNumber =
     (case js_get conversation ''mapping'' of
        Inl e \<Rightarrow> Some (st, errorPage e)
      | Inr mapping \<Rightarrow>
          (case extractMessages mapping of
             None \<Rightarrow> None
           | Some messages \<Rightarrow>
               Some (st\<lparr>totalMessages := totalMessages st + length messages\<rparr>,
                     case renderPage E conversation fileNumber messages of
                       Inl e \<Rightarrow> errorPage e
                     | Inr html \<Rightarrow> html)))"

section \<open>processConversation\<close>

text \<open>The progress line of the verbose mode, whose template converts values to strings.\<close>

definition verboseLine :: "env \<Rightarrow> jsval \<Rightarrow> exn + unit" where
  "verboseLine E conversation =
     (if verbose E then
        bindE (js_get conversation ''updated_at'') (\<lambda>updated.
        bindE (js_get conversation ''title'') (\<lambda>title.
        bindE (js_toString (if truthy title then title else JStr ''Untitled'')) (\<lambda>shownTitle.
        bindE (js_toString (formatTimestamp E
                 (if truthy updated then updated else member conversation ''inserted_at''))) (\<lambda>date.
          Inr ()))))
      else Inr ())"

text \<open>
  The state is the statistics and the files written so far (path and content). An
  exception anywhere in the \<^verbatim>\<open>try\<close> is counted in \<open>errors\<close>.
\<close>

definition processConversation ::
  "env \<Rightarrow> stats \<times> (string \<times> string) list \<Rightarrow> jsval \<Rightarrow> nat \<Rightarrow> (stats \<times> (string \<times> string) list) option" where
  "processConversation E state conversation index =
     (case state of (st, files) \<Rightarrow>
        (case bindE (processFileName E conversation index) (\<lambda>fileName.
                bindE (verboseLine E conversation) (\<lambda>u. Inr fileName)) of
           Inl e \<Rightarrow> Some (st\<lparr>errors := errors st + 1\<rparr>, files)
         | Inr fileName \<Rightarrow>
             (case generateHTML E st conversation (fileNumberOf index) of
                None \<Rightarrow> None
              | Some (st', html) \<Rightarrow>
                  if writeFails E (pathJoin E (outputDir E) fileName)
                  then Some (st'\<lparr>errors := errors st' + 1\<rparr>, files)
                  else Some (st'\<lparr>processedFiles := processedFiles st' + 1\<rparr>,
                             files @ [(pathJoin E (outputDir E) fileName, html)]))))"

section \<open>sortConversationsByDate\<close>

text \<open>\<^verbatim>\<open>c.updated_at || c.inserted_at\<close>; it throws when \<open>c\<close> is null.\<close>

definition conversationDate :: "jsval \<Rightarrow> exn + jsval" where
  "conversationDate c =
     bindE (js_get c ''updated_at'') (\<lambda>updated.
       Inr (if truthy updated then updated else member c ''inserted_at''))"

text \<open>
  The comparator. Its inner \<^verbatim>\<open>catch\<close> returns 0; a difference that is NaN (a date
  that does not parse) is written as 0 too, which is how the sort reads NaN.
\<close>

definition compareConversations :: "env \<Rightarrow> jsval \<Rightarrow> jsval \<Rightarrow> int" where
  "compareConversations E a b =
     (case conversationDate a of
        Inl e \<Rightarrow> 0
      | Inr dateA \<Rightarrow>
          (case conversationDate b of
             Inl e \<Rightarrow> 0
           | Inr dateB \<Rightarrow>
               if \<not> truthy dateA \<and> \<not> truthy dateB then 0
               else if \<not> truthy dateA then 1
               else if \<not> truthy dateB then - 1
               else (case getTime E dateA of
                       None \<Rightarrow> 0
                     | Some timeA \<Rightarrow>
                         (case getTime E dateB of
                            None \<Rightarrow> 0
                          | Some timeB \<Rightarrow> timeB - timeA))))"

text \<open>
  \<^verbatim>\<open>Array.prototype.sort\<close> with a comparator. The sort of the language is stable and
  puts undefined elements last; for a comparator that is not a consistent order its
  result is left to the implementation. The model is stable insertion sort: each
  element in turn moves left past the elements that compare greater than it. For
  a consistent comparator every stable sort gives this result.
\<close>

definition insertSorted :: "('a \<Rightarrow> 'a \<Rightarrow> int) \<Rightarrow> 'a \<Rightarrow> 'a list \<Rightarrow> 'a list" where
  "insertSorted cmp x ys =
     rev (dropWhile (\<lambda>y. 0 < cmp y x) (rev ys)) @ x # rev (takeWhile (\<lambda>y. 0 < cmp y x) (rev ys))"

definition js_sort :: "(jsval \<Rightarrow> jsval \<Rightarrow> int) \<Rightarrow> jsval list \<Rightarrow> jsval list" where
  "js_sort cmp xs =
     foldl (\<lambda>sorted x. insertSorted cmp x sorted) [] (filter (\<lambda>x. x \<noteq> JUndefined) xs)
     @ filter (\<lambda>x. x = JUndefined) xs"

definition sortConversationsByDate :: "env \<Rightarrow> jsval list \<Rightarrow> jsval list" where
  "sortConversationsByDate E conversations = js_sort (compareConversations E) conversations"

text \<open>
  \<^verbatim>\<open>new Date(n).getTime()\<close> for a number \<open>n\<close>: the number itself within 8.64e15
  milliseconds of the epoch, NaN beyond. Used as \<open>getTime\<close> where an example needs
  one; its examples carry numbers as dates.
\<close>

definition timeClip :: "jsval \<Rightarrow> int option" where
  "timeClip v = (case v of JNum n \<Rightarrow> if \<bar>n\<bar> \<le> 8640000000000000 then Some n else None | _ \<Rightarrow> None)"

definition sampleEnv :: env where
  "sampleEnv =
     \<lparr>getTime = timeClip, formatDate = (\<lambda>t. ''1970-01-01''),
      formatDateTime = (\<lambda>t. ''1970-01-01 00:00:00''), today = ''1/1/1970'', css = [],
      verbose = False, outputDir = ''out'', pathJoin = (\<lambda>d f. d @ ''/'' @ f),
      writeFails = (\<lambda>p. False)\<rparr>"

section \<open>The fragments that become blocks\<close>

text \<open>
  The guard \<^verbatim>\<open>fragment && fragment.type && fragment.content\<close> of the inner loop, the
  test \<^verbatim>\<open>fragment.type === 'REQUEST'\<close>, the fragments the outer loop hands to the inner
  loop for one message, and the fragments of a list of messages that pass the guard,
  in the order of the loops.
\<close>

definition emits :: "jsval \<Rightarrow> bool" where
  "emits fragment =
     (truthy fragment \<and> truthy (member fragment ''type'') \<and> truthy (member fragment ''content''))"

definition isRequestFragment :: "jsval \<Rightarrow> bool" where
  "isRequestFragment fragment = (member fragment ''type'' = JStr ''REQUEST'')"

definition fragmentsOf :: "jsval \<Rightarrow> jsval list" where
  "fragmentsOf message =
     (if truthy message \<and> truthy (member message ''fragments'') then
        (case member message ''fragments'' of JArr fragments \<Rightarrow> fragments | _ \<Rightarrow> [])
      else [])"

definition emittedFragments :: "jsval list \<Rightarrow> jsval list" where
  "emittedFragments messages = filter emits (concat (map fragmentsOf messages))"

text \<open>
  The labels that a counter gives which starts at \<open>n\<close> and goes up after each
  request: \<open>rs\<close> says of each block in turn whether it is a request.
\<close>

fun requestLabels :: "nat \<Rightarrow> bool list \<Rightarrow> string list" where
  "requestLabels n [] = []"
| "requestLabels n (r # rs) =
     ((if r then ''Request '' else ''Response '') @ showNat n) # requestLabels (if r then n + 1 else n) rs"

text \<open>
  One message with the fragments \<^verbatim>\<open>[{type: "REQUEST", content: "Hi"},
  {type: "OTHER", content: "Hello"}]\<close>.
\<close>

definition exampleMessage :: jsval where
  "exampleMessage =
     JObj [(''fragments'',
            JArr [JObj [(''type'', JStr ''REQUEST''), (''content'', JStr ''Hi'')],
                  JObj [(''type'', JStr ''OTHER''), (''content'', JStr ''Hello'')]])]"

section \<open>Verified properties\<close>

subsection \<open>Basic facts\<close>

lemma bindE_simps:
  "bindE (Inl e) f = Inl e"
  "bindE (Inr x) f = f x"
  by (simp_all add: bindE_def)

lemma arrayIndex_zero [simp]: "arrayIndex ''0'' = Some 0"
  by (simp add: arrayIndex_def isDigit_def digitsVal_def digitVal_def)


subsection \<open>The loop of extractMessages and the chain of first children\<close>

lemma extractLoop_unfold:
  "extractLoop m cur ms =
     (case resolve m cur of
        None \<Rightarrow> Some ms
      | Some node \<Rightarrow>
          (case nextId node of
             Inl e \<Rightarrow> Some (pushMessage node ms)
           | Inr next \<Rightarrow> extractLoop m next (pushMessage node ms)))"
  by (subst extractLoop.simps) (simp add: resolve_def split: sum.splits)

lemma nodeMessages_Cons:
  "ms @ nodeMessages (node # nodes) = pushMessage node ms @ nodeMessages nodes"
  by (simp add: nodeMessages_def pushMessage_def)

lemma extractLoop_visited:
  "length (visited m cur n) < n \<Longrightarrow>
   extractLoop m cur ms = Some (ms @ nodeMessages (visited m cur n))"
proof (induction n arbitrary: cur ms)
  case 0
  then show ?case by simp
next
  case (Suc n)
  show ?case
  proof (cases "resolve m cur")
    case None
    then show ?thesis
      by (subst extractLoop_unfold) (simp add: nodeMessages_def)
  next
    case (Some node)
    show ?thesis
    proof (cases "nextId node")
      case (Inl e)
      with Some show ?thesis
        by (subst extractLoop_unfold) (simp add: nodeMessages_def pushMessage_def)
    next
      case (Inr nxt)
      with Some Suc.prems have "length (visited m nxt n) < n" by simp
      from Suc.IH [OF this, of "pushMessage node ms"] Some Inr show ?thesis
        by (subst extractLoop_unfold) (simp add: nodeMessages_Cons del: append_assoc)
    qed
  qed
qed

lemma resolve_Some_key:
  "resolve m cur = Some node \<Longrightarrow> \<exists>k. js_toString cur = Inr k \<and> member m k = node \<and> truthy node"
  by (auto simp: resolve_def computed_member_def bindE_def split: if_splits sum.splits)

lemma length_visitedKeys: "length (visitedKeys m cur n) = length (visited m cur n)"
proof (induction n arbitrary: cur)
  case 0
  show ?case by simp
next
  case (Suc n)
  show ?case
  proof (cases "resolve m cur")
    case None
    then show ?thesis by simp
  next
    case (Some node)
    then obtain k where "js_toString cur = Inr k"
      using resolve_Some_key by blast
    with Some Suc.IH show ?thesis
      by (simp split: sum.splits)
  qed
qed

lemma member_truthy_key:
  "truthy (member (JObj kvs) k) \<Longrightarrow> k \<in> set (map fst kvs)"
  by (auto split: option.splits dest!: map_of_SomeD simp: rev_image_eqI)

lemma visitedKeys_subset:
  "set (visitedKeys (JObj kvs) cur n) \<subseteq> set (map fst kvs)"
proof (induction n arbitrary: cur)
  case 0
  show ?case by simp
next
  case (Suc n)
  show ?case
  proof (cases "resolve (JObj kvs) cur")
    case None
    then show ?thesis by simp
  next
    case (Some node)
    then obtain k where k: "js_toString cur = Inr k" "member (JObj kvs) k = node" "truthy node"
      using resolve_Some_key by blast
    then have "k \<in> set (map fst kvs)"
      using member_truthy_key by blast
    with Some k Suc.IH show ?thesis
      by (auto split: sum.splits)
  qed
qed

lemma visited_bound_obj:
  assumes "distinct (visitedKeys (JObj kvs) cur n)"
  shows "length (visited (JObj kvs) cur n) \<le> entryCount (JObj kvs)"
proof -
  have "length (visitedKeys (JObj kvs) cur n) = card (set (visitedKeys (JObj kvs) cur n))"
    using assms by (simp add: distinct_card)
  also have "\<dots> \<le> card (set (map fst kvs))"
    by (rule card_mono) (simp_all add: visitedKeys_subset del: set_map)
  also have "\<dots> = entryCount (JObj kvs)"
    by (simp add: length_remdups_card_conv)
  finally show ?thesis
    by (simp add: length_visitedKeys)
qed

lemma resolve_undefined [simp]: "resolve m JUndefined = None"
  by (simp add: resolve_def)

lemma cyclic_resolve: "resolve cyclicMapping (JStr ''A'') = Some (JObj [(''message'', JStr ''m''), (''children'', JArr [JStr ''A''])])"
  by (simp add: resolve_def cyclicMapping_def computed_member_def bindE_simps)

lemma cyclic_next: "nextId (JObj [(''message'', JStr ''m''), (''children'', JArr [JStr ''A''])]) = Inr (JStr ''A'')"
  by (simp add: nextId_def bindE_simps)

lemma extractLoop_Some_ends:
  assumes "extractLoop m cur ms = Some r"
  shows "\<exists>n. length (visited m cur n) < n"
  using assms
proof (rule extractLoop.raw_induct [rotated])
  fix loop m cur ms r
  assume 1: "\<And>m cur ms r. loop m cur ms = Some r \<Longrightarrow> \<exists>n. length (visited m cur n) < n"
    "(if \<not> truthy cur then Some ms
      else case computed_member m cur of
             Inl e \<Rightarrow> Some ms
           | Inr node \<Rightarrow>
               (if \<not> truthy node then Some ms
                else (case nextId node of
                        Inl e \<Rightarrow> Some (pushMessage node ms)
                      | Inr nxt \<Rightarrow> loop m nxt (pushMessage node ms)))) = Some r"
  show "\<exists>n. length (visited m cur n) < n"
  proof (cases "resolve m cur")
    case None
    then have "length (visited m cur (Suc 0)) < Suc 0" by simp
    then show ?thesis by blast
  next
    case (Some node)
    then have node: "truthy cur" "computed_member m cur = Inr node" "truthy node"
      by (auto simp: resolve_def split: if_splits sum.splits)
    show ?thesis
    proof (cases "nextId node")
      case (Inl e)
      with Some have "length (visited m cur (Suc (Suc 0))) < Suc (Suc 0)" by simp
      then show ?thesis by blast
    next
      case (Inr nxt)
      with 1(2) node have "loop m nxt (pushMessage node ms) = Some r" by simp
      then obtain n where "length (visited m nxt n) < n"
        using 1(1) by blast
      with Some Inr have "length (visited m cur (Suc n)) < Suc n" by simp
      then show ?thesis by blast
    qed
  qed
qed

lemma cyclic_visited: "length (visited cyclicMapping (JStr ''A'') n) = n"
  by (induction n) (simp_all add: cyclic_resolve cyclic_next)

lemma cyclic_never_returns: "extractLoop cyclicMapping (JStr ''A'') ms = None"
proof (cases "extractLoop cyclicMapping (JStr ''A'') ms")
  case None
  then show ?thesis .
next
  case (Some r)
  then obtain n where "length (visited cyclicMapping (JStr ''A'') n) < n"
    using extractLoop_Some_ends by blast
  then show ?thesis by (simp add: cyclic_visited)
qed

lemma visitedKeys_take: "visitedKeys m cur n = take n (visitedKeys m cur (n + k))"
proof (induction n arbitrary: cur)
  case 0
  show ?case by simp
next
  case (Suc n)
  show ?case
    using Suc.IH by (simp split: option.splits sum.splits)
qed

lemma visitedKeys_stable:
  "length (visitedKeys m cur n) < n \<Longrightarrow> visitedKeys m cur (n + k) = visitedKeys m cur n"
proof (induction n arbitrary: cur)
  case 0
  then show ?case by simp
next
  case (Suc n)
  then show ?case
    by (simp split: option.splits sum.splits)
qed

lemma acyclic_from_finite:
  assumes "length (visitedKeys m cur n) < n" "distinct (visitedKeys m cur n)"
  shows "distinct (visitedKeys m cur j)"
proof (cases "j \<le> n")
  case True
  then obtain k where "n = j + k"
    using le_Suc_ex by blast
  then have "visitedKeys m cur j = take j (visitedKeys m cur n)"
    using visitedKeys_take by simp
  with assms(2) show ?thesis by simp
next
  case False
  then obtain k where "j = n + k"
    using le_Suc_ex [of n j] by auto
  with assms show ?thesis
    by (simp add: visitedKeys_stable)
qed

lemma example_general:
  assumes "a \<noteq> []" "b \<noteq> []" "a \<noteq> ''root''" "b \<noteq> ''root''" "a \<noteq> b" "truthy M1" "truthy M2"
  shows "extractMessages (exampleMapping a b M1 M2) = Some [M1, M2]"
proof -
  let ?m = "exampleMapping a b M1 M2"
  let ?A = "JObj [(''message'', M1), (''children'', JArr [JStr b])]"
  let ?B = "JObj [(''message'', M2), (''children'', JArr [])]"
  have start: "rootFirstChild ?m = JStr a"
    by (simp add: exampleMapping_def rootFirstChild_def opt_member_def)
  have rA: "resolve ?m (JStr a) = Some ?A"
    using assms by (simp add: exampleMapping_def resolve_def computed_member_def bindE_simps)
  have rB: "resolve ?m (JStr b) = Some ?B"
    using assms by (simp add: exampleMapping_def resolve_def computed_member_def bindE_simps)
  have nA: "nextId ?A = Inr (JStr b)"
    by (simp add: nextId_def bindE_simps)
  have nB: "nextId ?B = Inr JNull"
    by (simp add: nextId_def bindE_simps)
  have rN: "resolve ?m JNull = None"
    by (simp add: resolve_def)
  have v: "visited ?m (JStr a) 3 = [?A, ?B]"
    by (simp add: numeral_3_eq_3 rA rB nA nB rN)
  have "extractLoop ?m (JStr a) [] = Some ([] @ nodeMessages (visited ?m (JStr a) 3))"
    by (rule extractLoop_visited) (simp add: v)
  moreover have "truthy ?m \<and> typeof_object ?m"
    by (simp add: exampleMapping_def)
  ultimately show ?thesis
    using assms by (simp add: extractMessages_def start v nodeMessages_def)
qed


lemmas traversal_defs =
  rootFirstChild_def opt_member_def resolve_def computed_member_def bindE_simps nextId_def
  pushMessage_def nodeMessages_def

subsection \<open>C1: extractMessages follows the chain of first children\<close>



subsection \<open>C9: a missing or malformed mapping gives no messages\<close>



subsection \<open>C7: termination on an acyclic chain\<close>



subsection \<open>Facts about sanitizeFilename\<close>

lemma collapseSpace_no_space: "c \<in> set (collapseSpace s) \<Longrightarrow> \<not> isSpace c"
proof (induction s rule: collapseSpace.induct)
  case 1
  then show ?case by simp
next
  case (2 d ds)
  then show ?case
    by (auto simp: isSpace_def split: if_splits)
qed

lemma dropWhile_none: "\<forall>c \<in> set s. \<not> P c \<Longrightarrow> dropWhile P s = s"
  by (cases s) auto

lemma js_trim_no_space: "\<forall>c \<in> set s. \<not> isSpace c \<Longrightarrow> js_trim s = s"
  by (simp add: js_trim_def dropWhile_none)

lemma collapseSpace_special:
  "c \<in> set (collapseSpace s) \<Longrightarrow> c \<in> set s \<or> c = CHR ''_''"
proof (induction s rule: collapseSpace.induct)
  case 1
  then show ?case by simp
next
  case (2 d ds)
  then show ?case
    by (auto split: if_splits dest: set_dropWhileD)
qed

lemma replaceSpecial_no_special: "c \<in> set (replaceSpecial s) \<Longrightarrow> c \<notin> set specialChars"
  by (auto simp: replaceSpecial_def specialChars_def split: if_splits)

lemma collapseSpace_runs:
  "\<forall>c \<in> set u. \<not> isSpace c \<Longrightarrow> ws \<noteq> [] \<Longrightarrow> \<forall>c \<in> set ws. isSpace c \<Longrightarrow>
   (v = [] \<or> \<not> isSpace (hd v)) \<Longrightarrow>
   collapseSpace (u @ ws @ v) = u @ CHR ''_'' # collapseSpace v"
proof (induction u)
  case Nil
  then obtain w ws' where ws: "ws = w # ws'" by (cases ws) auto
  with Nil have "dropWhile isSpace (ws' @ v) = v"
    by (cases v) (auto simp: dropWhile_append)
  with Nil ws show ?case by simp
next
  case (Cons a u)
  then show ?case by simp
qed

lemma showNat_1: "showNat (Suc 0) = ''1''"
  by (subst showNat.simps) (simp add: digitChar_def)

lemma fileNumberOf_0: "fileNumberOf 0 = ''001''"
  by (simp add: fileNumberOf_def padStart3_def showNat_1 numeral_2_eq_2)

lemma collapseSpace_none: "\<forall>c \<in> set s. \<not> isSpace c \<Longrightarrow> collapseSpace s = s"
  by (induction s) auto

lemma replaceSpecial_none: "\<forall>c \<in> set s. c \<notin> set specialChars \<Longrightarrow> replaceSpecial s = s"
  by (induction s) (auto simp: replaceSpecial_def)

lemma sanitize_plain:
  "s \<noteq> [] \<Longrightarrow> length s \<le> 50 \<Longrightarrow> \<forall>c \<in> set s. c \<notin> set specialChars \<and> \<not> isSpace c \<Longrightarrow>
   sanitizeFilename (JStr s) = s"
  by (simp add: sanitizeFilename_def replaceSpecial_none collapseSpace_none js_trim_no_space)

lemma sanitize_fallbacks:
  "sanitizeFilename (JStr ''conversation-001'') = ''conversation-001''"
  "sanitizeFilename (JStr ''conversation-1'') = ''conversation-1''"
  by (rule sanitize_plain; simp add: specialChars_def isSpace_def)+


subsection \<open>C5: the file name in summary.json and index.html\<close>

text \<open>
  Claim C5 says that the file name recorded in summary.json and linked from
  index.html is the name under which \<open>processConversation\<close> wrote the page, also for
  a conversation with no title. The source contradicts this for untitled
  conversations: \<open>processConversation\<close> builds the fallback title from the padded
  ordinal (\<^verbatim>\<open>conversation-001\<close>), the summary and the index from the plain ordinal
  (\<^verbatim>\<open>conversation-1\<close>). The first theorem evaluates the three names on a conversation
  without title at position 0; the lemma after it shows that the names agree
  whenever the title is present.
\<close>

theorem untitled_file_names_differ:
  "processFileName E (JObj [(''id'', JStr ''c1'')]) 0 = Inr ''nodate-001-conversation-001.html'' \<and>
   summaryFile E (JObj [(''id'', JStr ''c1'')]) 0 = Inr ''nodate-001-conversation-1.html'' \<and>
   indexFileName E (JObj [(''id'', JStr ''c1'')]) 0 = Inr ''nodate-001-conversation-1.html''"
proof -
  have "getDatePrefix E (JObj [(''id'', JStr ''c1'')]) = ''nodate''"
    by (simp add: getDatePrefix_def js_get_def)
  moreover have "padStart3 (showNat (Suc 0)) = ''001''"
    using fileNumberOf_0 by (simp add: fileNumberOf_def)
  ultimately show ?thesis
    by (simp add: processFileName_def summaryFile_def indexFileName_def js_get_def
      fileNumberOf_0 showNat_1 bindE_simps sanitize_fallbacks)
qed

lemma titled_file_names_agree:
  "truthy (member conv ''title'') \<Longrightarrow>
   summaryFile E conv i = processFileName E conv i \<and> indexFileName E conv i = processFileName E conv i"
  by (cases "nullish conv")
     (auto simp: processFileName_def summaryFile_def indexFileName_def js_get_def bindE_simps
        fileNumberOf_def Let_def)


subsection \<open>C8: sanitizeFilename\<close>

text \<open>
  Claim C8, as stated for every string title, fails for the empty string: the
  guard at the head of \<open>sanitizeFilename\<close> returns \<^verbatim>\<open>untitled\<close>, which is not the
  empty title with its characters replaced.
\<close>

theorem sanitizeFilename_empty_counterexample:
  "sanitizeFilename (JStr []) = ''untitled'' \<and>
   sanitizeFilename (JStr []) \<noteq> take 50 (collapseSpace (replaceSpecial []))"
  by (simp add: sanitizeFilename_def replaceSpecial_def)


text \<open>
  Claim C8, amended. The result of \<open>sanitizeFilename\<close> on a string has at most 50
  characters and contains none of the characters \<^verbatim>\<open>< > : " / \ | ? *\<close> and no white
  space. For a title that is not empty it is the first 50 characters of the title
  in which every character of that set is replaced by an underscore (position by
  position) and then every maximal run of white space by a single underscore: a
  run \<open>ws\<close> of white space between a text \<open>u\<close> without white space and a text \<open>v\<close>
  that does not start with white space becomes one underscore between them.
\<close>

theorem sanitizeFilename_spec:
  "length (sanitizeFilename (JStr title)) \<le> 50 \<and>
   (title \<noteq> [] \<longrightarrow> sanitizeFilename (JStr title) = take 50 (collapseSpace (replaceSpecial title))) \<and>
   (\<forall>c \<in> set (sanitizeFilename (JStr title)). c \<notin> set specialChars \<and> \<not> isSpace c) \<and>
   length (replaceSpecial title) = length title \<and>
   (\<forall>i < length title.
      replaceSpecial title ! i = (if title ! i \<in> set specialChars then CHR ''_'' else title ! i)) \<and>
   ((\<forall>c \<in> set u. \<not> isSpace c) \<and> ws \<noteq> [] \<and> (\<forall>c \<in> set ws. isSpace c) \<and> (v = [] \<or> \<not> isSpace (hd v))
      \<longrightarrow> collapseSpace (u @ ws @ v) = u @ CHR ''_'' # collapseSpace v)"
proof -
  let ?r = "take 50 (collapseSpace (replaceSpecial title))"
  have ns: "\<forall>c \<in> set ?r. \<not> isSpace c"
    using collapseSpace_no_space by (blast dest: in_set_takeD)
  have nsp: "\<forall>c \<in> set ?r. c \<notin> set specialChars"
  proof
    fix c assume "c \<in> set ?r"
    then have "c \<in> set (collapseSpace (replaceSpecial title))"
      by (rule in_set_takeD)
    then have "c \<in> set (replaceSpecial title) \<or> c = CHR ''_''"
      by (rule collapseSpace_special)
    then show "c \<notin> set specialChars"
      using replaceSpecial_no_special by (auto simp: specialChars_def)
  qed
  have eq: "title \<noteq> [] \<Longrightarrow> sanitizeFilename (JStr title) = ?r"
    using ns by (simp add: sanitizeFilename_def js_trim_no_space)
  have un: "sanitizeFilename (JStr []) = ''untitled''"
    by (simp add: sanitizeFilename_def)
  have len: "length (sanitizeFilename (JStr title)) \<le> 50"
    by (cases "title = []") (simp_all add: eq un)
  have chars: "\<forall>c \<in> set (sanitizeFilename (JStr title)). c \<notin> set specialChars \<and> \<not> isSpace c"
  proof (cases "title = []")
    case True
    then show ?thesis by (simp add: un specialChars_def isSpace_def)
  next
    case False
    then show ?thesis using ns nsp by (simp add: eq)
  qed
  have runs: "(\<forall>c \<in> set u. \<not> isSpace c) \<and> ws \<noteq> [] \<and> (\<forall>c \<in> set ws. isSpace c) \<and> (v = [] \<or> \<not> isSpace (hd v))
      \<longrightarrow> collapseSpace (u @ ws @ v) = u @ CHR ''_'' # collapseSpace v"
    using collapseSpace_runs by blast
  have "\<forall>i < length title.
      replaceSpecial title ! i = (if title ! i \<in> set specialChars then CHR ''_'' else title ! i)"
    by (simp add: replaceSpecial_def)
  moreover have "length (replaceSpecial title) = length title"
    by (simp add: replaceSpecial_def)
  ultimately show ?thesis
    using len eq chars runs by blast
qed

lemma sanitize_example:
  "take 50 (collapseSpace (replaceSpecial ''Plan: a/b   notes'')) = ''Plan__a_b_notes''"
  by (simp add: replaceSpecial_def specialChars_def isSpace_def)

lemma sanitize_long_example:
  "take 50 (collapseSpace (replaceSpecial
     ''How do I sort a list of conversations by date in JavaScript?''))
   = ''How_do_I_sort_a_list_of_conversations_by_date_in_J''"
  by (simp add: replaceSpecial_def specialChars_def isSpace_def)

theorem sanitizeFilename_spec_witness:
  "sanitizeFilename (JStr ''Plan: a/b   notes'') = ''Plan__a_b_notes'' \<and>
   sanitizeFilename (JStr ''How do I sort a list of conversations by date in JavaScript?'')
     = ''How_do_I_sort_a_list_of_conversations_by_date_in_J'' \<and>
   length (sanitizeFilename (JStr ''How do I sort a list of conversations by date in JavaScript?'')) = 50 \<and>
   collapseSpace (''a'' @ [CHR '' '', CHR 0x09, CHR '' ''] @ ''b'') = ''a_b''"
proof -
  have "collapseSpace ''b'' = ''b''"
    by (simp add: isSpace_def)
  then show ?thesis
    using sanitizeFilename_spec [of "''Plan: a/b   notes''" "''a''" "[CHR '' '', CHR 0x09, CHR '' '']" "''b''"]
      sanitizeFilename_spec [of "''How do I sort a list of conversations by date in JavaScript?''" "''a''" "[CHR '' '', CHR 0x09, CHR '' '']" "''b''"]
    by (simp add: sanitize_example sanitize_long_example isSpace_def)
qed

subsection \<open>Evaluating formatContent\<close>

lemma liItems_None: "liItem s = None \<Longrightarrow> liItems s = 0"
  by (subst liItems.simps) simp

lemma liItems_Some: "liItem s = Some n \<Longrightarrow> s \<noteq> [] \<Longrightarrow> liItems s = n + liItems (drop (max 1 n) s)"
  by (subst liItems.simps) simp

lemma liItem_no_tag: "\<not> startsWith ''<li>'' s \<Longrightarrow> liItem s = None"
  by (simp add: liItem_def)

lemmas format_eval =
  formatContent_def formatPasses_def escapeHtml_def escapeChar_def plain_def
  reFence_def reInlineCode_def reLine_def reDelimited_def reListItems_def reLink_def reNewline_def
  startsWith_def isLineTerm_def sub_def liItems_None liItem_no_tag Let_def

lemma fc_hi: "formatContent (JStr ''Hi'') = ''Hi''"
  by (simp add: format_eval)

lemma fc_hello: "formatContent (JStr ''Hello'') = ''Hello''"
  by (simp add: format_eval)

lemma fc_bold: "formatContent (JStr ''**bold** and `code`'') = ''<strong>bold</strong> and <code>code</code>''"
  by (simp add: format_eval)

subsection \<open>The loops of generateHTML\<close>

lemma renderFragment_skip: "\<not> emits f \<Longrightarrow> renderFragment E msg st f = Inr st"
  by (cases st) (auto simp: renderFragment_def emits_def)

lemma renderFragment_emit:
  assumes "emits f" "renderFragment E msg (n, bs) f = Inr (n', bs')"
  shows "\<exists>b. bs' = bs @ [b] \<and> isRequest b = isRequestFragment f \<and>
             headerText b = (if isRequestFragment f then ''Request '' else ''Response '') @ showNat n \<and>
             n' = (if isRequestFragment f then n + 1 else n)"
  using assms
  by (auto simp: renderFragment_def emits_def isRequestFragment_def bindE_def Let_def
      split: sum.splits if_splits)

lemma renderFragments_blocks:
  "renderFragments E msg (n, bs) fs = Inr (n', bs') \<Longrightarrow>
   \<exists>new. bs' = bs @ new \<and>
         map isRequest new = map isRequestFragment (filter emits fs) \<and>
         map headerText new = requestLabels n (map isRequestFragment (filter emits fs)) \<and>
         n' = n + length (filter isRequestFragment (filter emits fs))"
proof (induction fs arbitrary: n bs)
  case Nil
  then show ?case by simp
next
  case (Cons f fs)
  show ?case
  proof (cases "emits f")
    case False
    with Cons.prems have "renderFragments E msg (n, bs) fs = Inr (n', bs')"
      by (simp add: renderFragment_skip bindE_simps)
    from Cons.IH [OF this] False show ?thesis by simp
  next
    case True
    from Cons.prems obtain n1 bs1 where
      s1: "renderFragment E msg (n, bs) f = Inr (n1, bs1)" and
      s2: "renderFragments E msg (n1, bs1) fs = Inr (n', bs')"
      by (auto simp: bindE_def split: sum.splits)
    from renderFragment_emit [OF True s1] obtain b where
      b: "bs1 = bs @ [b]" "isRequest b = isRequestFragment f"
         "headerText b = (if isRequestFragment f then ''Request '' else ''Response '') @ showNat n"
         "n1 = (if isRequestFragment f then n + 1 else n)"
      by blast
    from Cons.IH [OF s2] obtain new where
      new: "bs' = bs1 @ new"
           "map isRequest new = map isRequestFragment (filter emits fs)"
           "map headerText new = requestLabels n1 (map isRequestFragment (filter emits fs))"
           "n' = n1 + length (filter isRequestFragment (filter emits fs))"
      by blast
    have "bs' = bs @ (b # new)"
      using b(1) new(1) by simp
    moreover have "map isRequest (b # new) = map isRequestFragment (filter emits (f # fs))"
      using True b(2) new(2) by simp
    moreover have "map headerText (b # new) = requestLabels n (map isRequestFragment (filter emits (f # fs)))"
      using True b(3,4) new(3) by simp
    moreover have "n' = n + length (filter isRequestFragment (filter emits (f # fs)))"
      using True b(4) new(4) by simp
    ultimately show ?thesis by blast
  qed
qed

lemma renderMessage_fragments:
  "renderMessage E st message = renderFragments E message st (fragmentsOf message)"
  by (auto simp: renderMessage_def fragmentsOf_def split: jsval.splits)

lemma renderMessages_blocks:
  "renderMessages E (n, bs) msgs = Inr (n', bs') \<Longrightarrow>
   \<exists>new. bs' = bs @ new \<and>
         map isRequest new = map isRequestFragment (emittedFragments msgs) \<and>
         map headerText new = requestLabels n (map isRequestFragment (emittedFragments msgs)) \<and>
         n' = n + length (filter isRequestFragment (emittedFragments msgs))"
proof (induction msgs arbitrary: n bs)
  case Nil
  then show ?case by (simp add: emittedFragments_def)
next
  case (Cons m msgs)
  from Cons.prems obtain n1 bs1 where
    s1: "renderFragments E m (n, bs) (fragmentsOf m) = Inr (n1, bs1)" and
    s2: "renderMessages E (n1, bs1) msgs = Inr (n', bs')"
    by (auto simp: bindE_def renderMessage_fragments split: sum.splits)
  from renderFragments_blocks [OF s1] obtain new1 where
    a: "bs1 = bs @ new1"
       "map isRequest new1 = map isRequestFragment (filter emits (fragmentsOf m))"
       "map headerText new1 = requestLabels n (map isRequestFragment (filter emits (fragmentsOf m)))"
       "n1 = n + length (filter isRequestFragment (filter emits (fragmentsOf m)))"
    by blast
  from Cons.IH [OF s2] obtain new2 where
    b: "bs' = bs1 @ new2"
       "map isRequest new2 = map isRequestFragment (emittedFragments msgs)"
       "map headerText new2 = requestLabels n1 (map isRequestFragment (emittedFragments msgs))"
       "n' = n1 + length (filter isRequestFragment (emittedFragments msgs))"
    by blast
  have app: "requestLabels k (xs @ ys) = requestLabels k xs @ requestLabels (k + length (filter id xs)) ys" for k xs ys
    by (induction xs arbitrary: k) auto
  have cnt: "length (filter id (map isRequestFragment xs)) = length (filter isRequestFragment xs)" for xs
    by (induction xs) auto
  have e: "emittedFragments (m # msgs) = filter emits (fragmentsOf m) @ emittedFragments msgs"
    by (simp add: emittedFragments_def)
  have "bs' = bs @ (new1 @ new2)"
    using a(1) b(1) by simp
  moreover have "map isRequest (new1 @ new2) = map isRequestFragment (emittedFragments (m # msgs))"
    using a(2) b(2) e by simp
  moreover have "map headerText (new1 @ new2) = requestLabels n (map isRequestFragment (emittedFragments (m # msgs)))"
    using a(3,4) b(3) e by (simp add: app cnt)
  moreover have "n' = n + length (filter isRequestFragment (emittedFragments (m # msgs)))"
    using a(4) b(4) e by simp
  ultimately show ?case by blast
qed

lemma requestLabels_nth:
  "k < length rs \<Longrightarrow>
   requestLabels n rs ! k =
     (if rs ! k then ''Request '' else ''Response '') @ showNat (n + length (filter id (take k rs)))"
proof (induction rs arbitrary: n k)
  case Nil
  then show ?case by simp
next
  case (Cons r rs)
  then show ?case
    by (cases k) auto
qed

lemma showNat_2: "showNat (Suc (Suc 0)) = ''2''"
  by (subst showNat.simps) (simp add: digitChar_def)

lemma timestamp_string: "\<exists>r. formatTimestamp E (JStr s) = JStr r"
  by (simp add: formatTimestamp_def split: option.splits)

lemma exampleMessage_labels:
  "map_sum id (\<lambda>st. map headerText (snd st)) (renderMessages E (1, []) [exampleMessage])
     = Inr [''Request 1'', ''Response 2'']"
proof -
  obtain r where r: "formatTimestamp E (JStr ''unknown'') = JStr r"
    using timestamp_string by blast
  show ?thesis
    by (simp add: exampleMessage_def renderMessage_def renderFragment_def safeStringOr_def
        safeString_def bindE_simps r showNat_1 showNat_2)
qed

lemma sample_timestamp: "formatTimestamp sampleEnv (JStr ''unknown'') = JStr ''unknown''"
  by (simp add: formatTimestamp_def sampleEnv_def timeClip_def)

lemma exampleMessage_run:
  "renderMessages sampleEnv (1, []) [exampleMessage] =
     Inr (2, [\<lparr>isRequest = True, headerText = ''Request 1'', timeText = ''unknown'', contentHtml = ''Hi''\<rparr>,
              \<lparr>isRequest = False, headerText = ''Response 2'', timeText = ''unknown'', contentHtml = ''Hello''\<rparr>])"
  by (simp add: exampleMessage_def renderMessage_def renderFragment_def safeStringOr_def
        safeString_def bindE_simps sample_timestamp showNat_1 showNat_2 fc_hi fc_hello)

subsection \<open>C3: the labels of the blocks\<close>




subsection \<open>C10: fragments that are skipped\<close>

text \<open>
  Claim C10. A fragment whose type or content is missing or empty (falsy) produces
  no block and leaves the counter as it is, also when its type is \<^verbatim>\<open>REQUEST\<close>: the
  loop over the fragments of a message gives the same result with and without it.
  Conversely a fragment after which the list of blocks has changed passed the guard,
  and exactly one block was added.
\<close>

theorem generateHTML_skips_fragment:
  "(\<not> emits fragment \<longrightarrow>
      renderFragment E message (messageNumber, blocks) fragment = Inr (messageNumber, blocks) \<and>
      renderFragments E message st (before @ fragment # after) = renderFragments E message st (before @ after)) \<and>
   (renderFragment E message (messageNumber, blocks) fragment = Inr (n', blocks') \<and> blocks' \<noteq> blocks \<longrightarrow>
      emits fragment \<and> length blocks' = length blocks + 1)"
proof (intro conjI impI)
  assume skip: "\<not> emits fragment"
  then show "renderFragment E message (messageNumber, blocks) fragment = Inr (messageNumber, blocks)"
    by (rule renderFragment_skip)
  show "renderFragments E message st (before @ fragment # after) = renderFragments E message st (before @ after)"
  proof (induction before arbitrary: st)
    case Nil
    show ?case using skip by (simp add: renderFragment_skip bindE_simps)
  next
    case (Cons f fs)
    show ?case
      by (cases "renderFragment E message st f") (simp_all add: bindE_simps Cons.IH)
  qed
next
  assume a: "renderFragment E message (messageNumber, blocks) fragment = Inr (n', blocks') \<and> blocks' \<noteq> blocks"
  then have e: "emits fragment"
    using renderFragment_skip [of fragment E message "(messageNumber, blocks)"] by auto
  then show "emits fragment" .
  from renderFragment_emit [OF e] a show "length blocks' = length blocks + 1"
    by fastforce
qed

theorem generateHTML_skips_fragment_witness:
  "\<not> emits (JObj [(''type'', JStr ''REQUEST''), (''content'', JStr [])]) \<and>
   \<not> emits (JObj [(''type'', JStr ''REQUEST'')]) \<and>
   \<not> emits (JObj [(''content'', JStr ''Hi'')]) \<and>
   renderFragment sampleEnv exampleMessage (1, [])
     (JObj [(''type'', JStr ''REQUEST''), (''content'', JStr [])]) = Inr (1, []) \<and>
   renderFragments sampleEnv exampleMessage (1, [])
     [JObj [(''type'', JStr ''REQUEST''), (''content'', JStr [])],
      JObj [(''type'', JStr ''REQUEST''), (''content'', JStr ''Hi'')]]
     = Inr (2, [\<lparr>isRequest = True, headerText = ''Request 1'', timeText = ''unknown'', contentHtml = ''Hi''\<rparr>]) \<and>
   emits (JObj [(''type'', JStr ''REQUEST''), (''content'', JStr ''Hi'')])"
proof -
  let ?skip = "JObj [(''type'', JStr ''REQUEST''), (''content'', JStr [])]"
  let ?real = "JObj [(''type'', JStr ''REQUEST''), (''content'', JStr ''Hi'')]"
  have s: "\<not> emits ?skip" "\<not> emits (JObj [(''type'', JStr ''REQUEST'')])" "\<not> emits (JObj [(''content'', JStr ''Hi'')])"
    by (simp_all add: emits_def)
  have r: "renderFragment sampleEnv exampleMessage (1, []) ?real
      = Inr (2, [\<lparr>isRequest = True, headerText = ''Request 1'', timeText = ''unknown'', contentHtml = ''Hi''\<rparr>])"
    by (simp add: exampleMessage_def renderFragment_def safeStringOr_def
        safeString_def bindE_simps sample_timestamp showNat_1 fc_hi)
  from generateHTML_skips_fragment [of ?skip sampleEnv exampleMessage 1 "[]" "(1, [])" "[]" "[?real]" 1 "[]"]
    generateHTML_skips_fragment [of ?real sampleEnv exampleMessage 1 "[]" "(1, [])" "[]" "[]" 2
      "[\<lparr>isRequest = True, headerText = ''Request 1'', timeText = ''unknown'', contentHtml = ''Hi''\<rparr>]"]
    s r
  show ?thesis
    by (simp add: bindE_simps)
qed

end
